theory Spec2Isabelle
  imports Complex_Main "HOL-Library.Sublist"
begin

section \<open>Catalog items\<close>

text \<open>
  A catalog entry is a JSON object read by \<^verbatim>\<open>get_all_maps\<close>. The program reads five of its
  keys. \<^verbatim>\<open>title\<close>, \<^verbatim>\<open>artist\<close> and \<^verbatim>\<open>url\<close> are read with \<^verbatim>\<open>m["..."]\<close> and handed to
  \<^verbatim>\<open>re\<close>: the program takes every entry to have them, as strings, and so does the data
  model of the catalog; an entry without them is outside this embedding (there
  \<^verbatim>\<open>m["..."]\<close> raises \<^verbatim>\<open>KeyError\<close>). \<^verbatim>\<open>level\<close> and \<^verbatim>\<open>md5\<close> are read with \<^verbatim>\<open>m.get(...)\<close>
  and may be absent.

  Strings are lists of 8-bit characters; the program's regular expressions are modelled on
  ASCII text.
\<close>

text \<open>
  A Python \<^verbatim>\<open>float\<close>: a finite double (a rational number), an infinity or a NaN.
\<close>

datatype pyfloat = Finite rat | PosInf | NegInf | NaN

text \<open>
  The chained comparison \<^verbatim>\<open>min_i <= lvl <= max_i\<close> of two Python ints with a float.
  Python compares an int with a float exactly; every comparison with NaN is false.
\<close>

fun int_le_float :: "int \<Rightarrow> pyfloat \<Rightarrow> bool" where
  "int_le_float i (Finite q) = (of_int i \<le> q)"
| "int_le_float i PosInf = True"
| "int_le_float i NegInf = False"
| "int_le_float i NaN = False"

fun float_le_int :: "pyfloat \<Rightarrow> int \<Rightarrow> bool" where
  "float_le_int (Finite q) i = (q \<le> of_int i)"
| "float_le_int PosInf i = False"
| "float_le_int NegInf i = True"
| "float_le_int NaN i = False"

text \<open>
  The field \<open>level\<close> holds what \<^verbatim>\<open>float(m.get("level"))\<close> evaluates to: \<open>None\<close> where
  \<^verbatim>\<open>float\<close> raises (the key is absent, the value is null, a text that is no number, ...).
  The field \<open>md5\<close> holds \<^verbatim>\<open>m.get("md5")\<close>: \<open>None\<close> where the key is absent or null.
\<close>

record catalog_item =
  title :: string
  artist :: string
  url :: string
  level :: "pyfloat option"
  md5 :: "string option"

section \<open>Helper functions\<close>

definition NERINYAN_BASE :: string where
  "NERINYAN_BASE = ''https://api.nerinyan.moe/d/''"

definition is_digit :: "char \<Rightarrow> bool" where
  "is_digit c = (c \<in> set ''0123456789'')"

text \<open>
  \<^verbatim>\<open>re.search(r"beatmapsets/(\d+)", url)\<close>: the leftmost position where the text
  \<^verbatim>\<open>beatmapsets/\<close> is followed by a digit; group 1 is the longest run of digits there.
\<close>

fun extract_beatmapset_id :: "string \<Rightarrow> string option" where
  "extract_beatmapset_id [] = None"
| "extract_beatmapset_id (c # cs) =
     (if take 12 (c # cs) = ''beatmapsets/'' \<and> takeWhile is_digit (drop 12 (c # cs)) \<noteq> []
      then Some (takeWhile is_digit (drop 12 (c # cs)))
      else extract_beatmapset_id cs)"

text \<open>
  \<^verbatim>\<open>re.sub(r'[\\/*?:"<>|]', "", name)\<close>: the nine characters of the class are removed.
\<close>

definition invalid_chars :: "char list" where
  "invalid_chars =
     [CHR 0x5C, CHR ''/'', CHR ''*'', CHR ''?'', CHR '':'', CHR 0x22, CHR ''<'', CHR ''>'', CHR ''|'']"

definition sanitize_filename :: "string \<Rightarrow> string" where
  "sanitize_filename name = filter (\<lambda>c. c \<notin> set invalid_chars) name"

text \<open>
  \<^verbatim>\<open>f"{sanitize_filename(m['title'])} - {sanitize_filename(m['artist'])} [{beatmapset_id}].osz"\<close>
\<close>

definition target_filename :: "catalog_item \<Rightarrow> string \<Rightarrow> string" where
  "target_filename m beatmapset_id =
     sanitize_filename (title m) @ '' - '' @ sanitize_filename (artist m) @
     '' ['' @ beatmapset_id @ ''].osz''"

section \<open>The download directory and the download service\<close>

text \<open>
  The directory \<^verbatim>\<open>download_root\<close> maps the names of its entries to regular files (their
  bytes) or to folders (the files below them, by relative path). A target file name
  holds no path separator (see \<open>target_filename_no_separator\<close>), so
  \<^verbatim>\<open>os.path.join(download_root, filename)\<close> names an entry of this directory.
\<close>

datatype entry = File string | Folder "string \<rightharpoonup> string"

type_synonym directory = "string \<rightharpoonup> entry"

text \<open>
  The \<^verbatim>\<open>content-length\<close> header of a response, by what
  \<^verbatim>\<open>int(r.headers.get('content-length', 0) or 0)\<close> makes of it: absent or empty (the value
  is 0), a text that \<^verbatim>\<open>int\<close> reads as the number \<open>n\<close>, or a text on which \<^verbatim>\<open>int\<close> raises
  \<^verbatim>\<open>ValueError\<close>.
\<close>

datatype content_length = NoHeader | Declared int | Unparsable

fun total_length_of :: "content_length \<Rightarrow> int option" where
  "total_length_of NoHeader = Some 0"
| "total_length_of (Declared n) = Some n"
| "total_length_of Unparsable = None"

text \<open>
  What the download service does with one streamed GET:
  \<^item> \<open>ConnectFailed\<close>: \<^verbatim>\<open>requests.get\<close> raises (no connection, timeout);
  \<^item> \<open>HttpError\<close>: a response arrives and \<^verbatim>\<open>raise_for_status\<close> raises;
  \<^item> \<open>Answer cl chunks broken\<close>: a success status with header \<open>cl\<close>; \<^verbatim>\<open>iter_content\<close>
    yields \<open>chunks\<close> and then ends normally, or raises when \<open>broken\<close> holds.
  The service is a function of the number of requests made before and of the URL, so it
  may answer the same URL differently each time.
\<close>

datatype response = ConnectFailed | HttpError | Answer content_length "string list" bool

type_synonym service = "nat \<Rightarrow> string \<Rightarrow> response"

text \<open>
  What the file system does when the program opens a file of the download directory for
  writing and writes chunks to it:
  \<^item> \<open>OpenFails\<close>: \<^verbatim>\<open>open(filepath, "wb")\<close> raises (the name is too long, the directory cannot
    be written) and no file is made;
  \<^item> \<open>Opens None\<close>: the file is made and every \<^verbatim>\<open>f.write\<close> succeeds;
  \<^item> \<open>Opens (Some k)\<close>: the file is made, \<open>k\<close> calls of \<^verbatim>\<open>f.write\<close> succeed and the next one
    raises (the disk is full).
  Like the service it is a function of the number of requests made before and of the file
  name.
\<close>

datatype fs_answer = OpenFails | Opens "nat option"

type_synonym disk = "nat \<Rightarrow> string \<Rightarrow> fs_answer"

section \<open>The download engine\<close>

text \<open>
  The source returns nothing; what a run does is observed in the directory, in the
  requests sent and in the calls of \<^verbatim>\<open>progress_callback\<close>. The field \<open>outcomes\<close> records
  which path through the loop body each item took.
\<close>

datatype outcome = Fetched | SkippedExisting | SkippedNoAssetId | SkippedUndersized | SkippedError

record dl_state =
  files :: directory
  requests :: "string list"
  calls :: "(nat \<times> nat \<times> rat) list"
  done_count :: nat
  outcomes :: "outcome list"

text \<open>
  \<^verbatim>\<open>done += 1; progress_callback(done, total, start_time)\<close>. The callback is an observer
  that returns normally.
\<close>

definition advance :: "nat \<Rightarrow> rat \<Rightarrow> outcome \<Rightarrow> dl_state \<Rightarrow> dl_state" where
  "advance tot start_time oc s =
     s\<lparr>done_count := done_count s + 1,
       calls := calls s @ [(done_count s + 1, tot, start_time)],
       outcomes := outcomes s @ [oc]\<rparr>"

text \<open>
  \<^verbatim>\<open>for chunk in r.iter_content(chunk_size=8192): if chunk: f.write(chunk)\<close>: the bytes
  that stand in the file when the loop is left, and whether a write raised. Empty chunks
  are not written.
\<close>

definition write_chunks :: "nat option \<Rightarrow> string list \<Rightarrow> string \<times> bool" where
  "write_chunks writes chunks =
     (let written = filter (\<lambda>chunk. chunk \<noteq> []) chunks
      in case writes of
           None \<Rightarrow> (concat written, False)
         | Some k \<Rightarrow>
             if k < length written then (concat (take k written), True)
             else (concat written, False))"

text \<open>
  The body of the \<^verbatim>\<open>try\<close> statement. It ends in one of three ways: an exception
  (\<open>Raised\<close>), the \<^verbatim>\<open>continue\<close> of the small-response guard after its own progress call
  (\<open>Continued\<close>), or the end of the block (\<open>Finished\<close>). The file is opened after the
  guard and before the first chunk is read: where opening raises there is no file, and
  where a write raises or the stream breaks the chunks written so far stay in the file.
\<close>

datatype flow = Raised | Continued | Finished

definition try_body ::
  "service \<Rightarrow> disk \<Rightarrow> nat \<Rightarrow> rat \<Rightarrow> string \<Rightarrow> string \<Rightarrow> dl_state \<Rightarrow> flow \<times> dl_state" where
  "try_body net fs tot start_time download_url filename s =
     (let s1 = s\<lparr>requests := requests s @ [download_url]\<rparr> in
      case net (length (requests s)) download_url of
        ConnectFailed \<Rightarrow> (Raised, s1)
      | HttpError \<Rightarrow> (Raised, s1)
      | Answer cl chunks broken \<Rightarrow>
          (case total_length_of cl of
             None \<Rightarrow> (Raised, s1)
           | Some total_length \<Rightarrow>
               if total_length \<noteq> 0 \<and> total_length < 200000
               then (Continued, advance tot start_time SkippedUndersized s1)
               else (case fs (length (requests s)) filename of
                       OpenFails \<Rightarrow> (Raised, s1)
                     | Opens writes \<Rightarrow>
                         (case write_chunks writes chunks of
                            (bytes, write_raised) \<Rightarrow>
                              (if write_raised \<or> broken then Raised else Finished,
                               s1\<lparr>files := (files s1)(filename \<mapsto> File bytes)\<rparr>)))))"

text \<open>One iteration of the loop over \<^verbatim>\<open>missing_maps\<close>.\<close>

definition process_item ::
  "service \<Rightarrow> disk \<Rightarrow> nat \<Rightarrow> rat \<Rightarrow> catalog_item \<Rightarrow> dl_state \<Rightarrow> dl_state" where
  "process_item net fs tot start_time m s =
     (case extract_beatmapset_id (url m) of
        None \<Rightarrow> advance tot start_time SkippedNoAssetId s
      | Some beatmapset_id \<Rightarrow>
          (let download_url = NERINYAN_BASE @ beatmapset_id;
               filename = target_filename m beatmapset_id
           in if files s filename \<noteq> None
              then advance tot start_time SkippedExisting s
              else (case try_body net fs tot start_time download_url filename s of
                      (Continued, s') \<Rightarrow> s'
                    | (Raised, s') \<Rightarrow> advance tot start_time SkippedError s'
                    | (Finished, s') \<Rightarrow> advance tot start_time Fetched s')))"

fun download_loop ::
  "service \<Rightarrow> disk \<Rightarrow> nat \<Rightarrow> rat \<Rightarrow> catalog_item list \<Rightarrow> dl_state \<Rightarrow> dl_state" where
  "download_loop net fs tot start_time [] s = s"
| "download_loop net fs tot start_time (m # ms) s =
     download_loop net fs tot start_time ms (process_item net fs tot start_time m s)"

text \<open>
  \<^verbatim>\<open>os.makedirs(download_root, exist_ok=True)\<close>: \<open>download_root\<close> is a directory or,
  with \<open>None\<close>, a path that does not exist yet and can be made; afterwards the directory
  exists, empty if it was just made.
\<close>

definition makedirs :: "directory option \<Rightarrow> directory" where
  "makedirs download_root = (case download_root of None \<Rightarrow> Map.empty | Some dir \<Rightarrow> dir)"

definition initial_state :: "directory \<Rightarrow> dl_state" where
  "initial_state dir =
     \<lparr>files = dir, requests = [], calls = [], done_count = 0, outcomes = []\<rparr>"

text \<open>
  \<^verbatim>\<open>download_missing_maps\<close>: \<open>start_time\<close> is the reading of the clock at the start of
  the run.
\<close>

definition download_missing_maps ::
  "service \<Rightarrow> disk \<Rightarrow> rat \<Rightarrow> catalog_item list \<Rightarrow> directory option \<Rightarrow> dl_state" where
  "download_missing_maps net fs start_time missing_maps download_root =
     download_loop net fs (length missing_maps) start_time missing_maps
       (initial_state (makedirs download_root))"

text \<open>
  The state of a run when the turn of item \<open>i\<close> comes: the loop has gone through the
  first \<open>i\<close> items.
\<close>

definition state_before ::
  "service \<Rightarrow> disk \<Rightarrow> rat \<Rightarrow> catalog_item list \<Rightarrow> directory option \<Rightarrow> nat \<Rightarrow> dl_state" where
  "state_before net fs start_time missing_maps download_root i =
     download_loop net fs (length missing_maps) start_time (take i missing_maps)
       (initial_state (makedirs download_root))"

text \<open>
  A transport error while fetching or streaming: the request raises, the status is an
  error, or the stream breaks while the body is read (the body is read when the
  small-response guard lets the response through).
\<close>

fun transport_error :: "response \<Rightarrow> bool" where
  "transport_error ConnectFailed = True"
| "transport_error HttpError = True"
| "transport_error (Answer cl chunks broken) =
     (broken \<and> (case total_length_of cl of None \<Rightarrow> False
                 | Some total_length \<Rightarrow> \<not> (total_length \<noteq> 0 \<and> total_length < 200000)))"

section \<open>The archive extractor\<close>

text \<open>\<^verbatim>\<open>str.lower\<close> on ASCII letters, \<^verbatim>\<open>str.endswith\<close>.\<close>

definition lower_char :: "char \<Rightarrow> char" where
  "lower_char c =
     (case map_of (zip ''ABCDEFGHIJKLMNOPQRSTUVWXYZ'' ''abcdefghijklmnopqrstuvwxyz'') c of
        None \<Rightarrow> c
      | Some l \<Rightarrow> l)"

definition lower :: "string \<Rightarrow> string" where
  "lower f = map lower_char f"

definition endswith :: "string \<Rightarrow> string \<Rightarrow> bool" where
  "endswith f ext =
     (length ext \<le> length f \<and> drop (length f - length ext) f = ext)"

definition is_osz :: "string \<Rightarrow> bool" where
  "is_osz f = endswith (lower f) ''.osz''"

text \<open>
  \<^verbatim>\<open>os.path.splitext(osz_file)[0]\<close> for a name without path separator (a name that
  \<^verbatim>\<open>os.listdir\<close> returns): the name is cut at its last dot, unless only dots stand before
  that dot.
\<close>

definition splitext_root :: "string \<Rightarrow> string" where
  "splitext_root p =
     (if CHR ''.'' \<in> set p
      then (let dotIndex = length p - Suc (length (takeWhile (\<lambda>c. c \<noteq> CHR ''.'') (rev p)))
            in if filter (\<lambda>c. c \<noteq> CHR ''.'') (take dotIndex p) \<noteq> [] then take dotIndex p else p)
      else p)"

text \<open>
  The \<^verbatim>\<open>zipfile\<close> library: what \<^verbatim>\<open>ZipFile(osz_path).extractall(extract_folder)\<close> does
  with the bytes of the file it opens and the files now below \<^verbatim>\<open>extract_folder\<close> (\<open>None\<close>
  when there is no such folder yet). The result is the files below the folder afterwards
  (\<open>None\<close> when there is still no folder) and whether opening or extracting raised; an
  extraction that raises midway leaves the members written so far. Extraction writes
  nothing outside \<^verbatim>\<open>extract_folder\<close>: \<^verbatim>\<open>zipfile\<close> strips drive letters, leading
  separators and \<^verbatim>\<open>..\<close> from member names.
\<close>

type_synonym zipfile =
  "string \<Rightarrow> (string \<rightharpoonup> string) option \<Rightarrow> (string \<rightharpoonup> string) option \<times> bool"

text \<open>
  One iteration of the extraction loop. \<^verbatim>\<open>zipfile.ZipFile(osz_path)\<close> raises unless the
  entry is a regular file. Where a regular file stands at \<^verbatim>\<open>extract_folder\<close>, neither a
  folder nor a member can be made below it and the directory stays as it is. Every
  exception is swallowed by \<^verbatim>\<open>except Exception: pass\<close>, so the iteration always ends
  with a directory.
\<close>

definition extract_one :: "zipfile \<Rightarrow> directory \<Rightarrow> string \<Rightarrow> directory" where
  "extract_one unzip dir osz_file =
     (case dir osz_file of
        Some (File bytes) \<Rightarrow>
          (let extract_folder = splitext_root osz_file
           in case dir extract_folder of
                Some (File other) \<Rightarrow> dir
              | Some (Folder folder) \<Rightarrow>
                  (case fst (unzip bytes (Some folder)) of
                     None \<Rightarrow> dir
                   | Some extracted \<Rightarrow> dir(extract_folder \<mapsto> Folder extracted))
              | None \<Rightarrow>
                  (case fst (unzip bytes None) of
                     None \<Rightarrow> dir
                   | Some extracted \<Rightarrow> dir(extract_folder \<mapsto> Folder extracted)))
      | Some (Folder folder) \<Rightarrow> dir
      | None \<Rightarrow> dir)"

fun extract_loop :: "zipfile \<Rightarrow> string list \<Rightarrow> directory \<Rightarrow> directory" where
  "extract_loop unzip [] dir = dir"
| "extract_loop unzip (osz_file # osz_files) dir =
     extract_loop unzip osz_files (extract_one unzip dir osz_file)"

text \<open>
  The extraction pass in the words of the specification: every archive is extracted into
  the folder named after its stem, and an archive that fails is skipped. \<open>unzip_into\<close> is
  what one archive does to its folder: the zip library is applied to the bytes of a
  regular file, and where it leaves no folder, or the entry is no regular file, the folder
  stays as it is. \<open>extracted_folder\<close> is the folder \<open>stem\<close> after the pass: the archives
  with this stem are applied one after the other, in the order of the listing, to what the
  directory had at the start.
\<close>

definition unzip_into ::
  "zipfile \<Rightarrow> entry option \<Rightarrow> (string \<rightharpoonup> string) option \<Rightarrow> (string \<rightharpoonup> string) option" where
  "unzip_into unzip archive folder =
     (case archive of
        Some (File bytes) \<Rightarrow>
          (case fst (unzip bytes folder) of None \<Rightarrow> folder | Some extracted \<Rightarrow> Some extracted)
      | Some (Folder below) \<Rightarrow> folder
      | None \<Rightarrow> folder)"

definition folder_of :: "entry option \<Rightarrow> (string \<rightharpoonup> string) option" where
  "folder_of e = (case e of Some (Folder below) \<Rightarrow> Some below | Some (File bytes) \<Rightarrow> None
                  | None \<Rightarrow> None)"

definition extracted_folder ::
  "zipfile \<Rightarrow> directory \<Rightarrow> string list \<Rightarrow> string \<Rightarrow> (string \<rightharpoonup> string) option" where
  "extracted_folder unzip dir osz_files stem =
     fold (\<lambda>osz_file folder. unzip_into unzip (dir osz_file) folder)
       (filter (\<lambda>osz_file. splitext_root osz_file = stem) osz_files) (folder_of (dir stem))"

text \<open>
  \<^verbatim>\<open>os.remove\<close> removes a regular file and raises on a folder or a missing entry; the
  exception is swallowed.
\<close>

definition remove_one :: "directory \<Rightarrow> string \<Rightarrow> directory" where
  "remove_one dir osz_file =
     (case dir osz_file of
        Some (File bytes) \<Rightarrow> dir(osz_file := None)
      | Some (Folder folder) \<Rightarrow> dir
      | None \<Rightarrow> dir)"

fun remove_loop :: "string list \<Rightarrow> directory \<Rightarrow> directory" where
  "remove_loop [] dir = dir"
| "remove_loop (osz_file # osz_files) dir = remove_loop osz_files (remove_one dir osz_file)"

text \<open>
  \<^verbatim>\<open>extract_osz_files\<close>: \<open>download_root\<close> is \<open>None\<close> when the path is no directory;
  \<open>listdir\<close> is \<^verbatim>\<open>os.listdir\<close>, which gives the names of a directory in some order.
\<close>

definition extract_osz_files ::
  "zipfile \<Rightarrow> (directory \<Rightarrow> string list) \<Rightarrow> directory option \<Rightarrow> bool \<Rightarrow> directory option" where
  "extract_osz_files unzip listdir download_root delete_after =
     (case download_root of
        None \<Rightarrow> None
      | Some dir \<Rightarrow>
          (let osz_files = filter is_osz (listdir dir);
               extracted = extract_loop unzip osz_files dir
           in Some (if delete_after then remove_loop osz_files extracted else extracted)))"

section \<open>The pipeline\<close>

datatype dialog =
    ErrorDatabaseNotFound
  | ErrorMapList string
  | InfoAllPresent
  | ConfirmDownload nat
  | InfoExtractedDeleted
  | AskExtractNow
  | InfoExtractionComplete

text \<open>
  \<^verbatim>\<open>get_existing_md5\<close>: the database is \<open>None\<close> when the file \<^verbatim>\<open>songdata.db\<close> does not
  exist, and else the rows of \<^verbatim>\<open>SELECT md5 FROM song\<close> (a NULL is \<open>None\<close>). The result
  is the dialogs shown and the set of hashes.
\<close>

definition get_existing_md5 ::
  "string option list option \<Rightarrow> dialog list \<times> string option set" where
  "get_existing_md5 db =
     (case db of
        None \<Rightarrow> ([ErrorDatabaseNotFound], {})
      | Some rows \<Rightarrow> ([], set rows))"

definition JSON_URLS :: "(string \<times> string) list" where
  "JSON_URLS =
     [(''7K + 8K'', ''https://air-afother.github.io/osu-table/osu_mania_7k_8k_final.json''),
      (''4K'', ''https://air-afother.github.io/osu-table/osu_mania_4k_final.json'')]"

text \<open>
  The loop over the maps of one table: \<open>combined_maps\<close> is the list the loop appends to.
\<close>

fun level_loop ::
  "int \<Rightarrow> int \<Rightarrow> catalog_item list \<Rightarrow> catalog_item list \<Rightarrow> catalog_item list" where
  "level_loop min_i max_i [] combined_maps = combined_maps"
| "level_loop min_i max_i (m # maps) combined_maps =
     (case level m of
        None \<Rightarrow> level_loop min_i max_i maps combined_maps
      | Some lvl \<Rightarrow>
          if int_le_float min_i lvl \<and> float_le_int lvl max_i
          then level_loop min_i max_i maps (combined_maps @ [m])
          else level_loop min_i max_i maps combined_maps)"

text \<open>
  The loop over the selected tables. \<open>fetch\<close> is \<^verbatim>\<open>get_all_maps\<close>: the catalog behind a
  URL, or \<open>None\<close> when the request or the decoding raises. The result is the name of the
  table whose catalog failed, or the combined maps; with it the URLs requested.
\<close>

fun table_loop ::
  "(string \<Rightarrow> catalog_item list option) \<Rightarrow> (string \<rightharpoonup> int \<times> int) \<Rightarrow> string list \<Rightarrow>
   catalog_item list \<Rightarrow> string list \<Rightarrow> (string + catalog_item list) \<times> string list" where
  "table_loop fetch level_ranges_int [] combined_maps fetched = (Inr combined_maps, fetched)"
| "table_loop fetch level_ranges_int (table # tables) combined_maps fetched =
     (case map_of JSON_URLS table of
        None \<Rightarrow> table_loop fetch level_ranges_int tables combined_maps fetched
      | Some json_url \<Rightarrow>
          (case fetch json_url of
             None \<Rightarrow> (Inl table, fetched @ [json_url])
           | Some maps \<Rightarrow>
               (case (case level_ranges_int table of None \<Rightarrow> (0, 20) | Some bounds \<Rightarrow> bounds) of
                  (min_i, max_i) \<Rightarrow>
                    table_loop fetch level_ranges_int tables
                      (level_loop min_i max_i maps combined_maps) (fetched @ [json_url]))))"

text \<open>
  Deduplication by md5: \<open>seen_md5\<close> is the set of hashes met, \<open>unique\<close> the list the loop
  appends to. \<^verbatim>\<open>not md\<close> holds for an absent hash and for the empty text.
\<close>

fun dedup_loop ::
  "catalog_item list \<Rightarrow> string set \<Rightarrow> catalog_item list \<Rightarrow> catalog_item list" where
  "dedup_loop [] seen_md5 unique = unique"
| "dedup_loop (m # combined_maps) seen_md5 unique =
     (case md5 m of
        None \<Rightarrow> dedup_loop combined_maps seen_md5 unique
      | Some md \<Rightarrow>
          if md = [] \<or> md \<in> seen_md5
          then dedup_loop combined_maps seen_md5 unique
          else dedup_loop combined_maps (insert md seen_md5) (unique @ [m]))"

definition unique_maps :: "catalog_item list \<Rightarrow> catalog_item list" where
  "unique_maps combined_maps = dedup_loop combined_maps {} []"

text \<open>
  \<^verbatim>\<open>[m for m in unique_maps if m.get("md5") not in existing_md5]\<close>
\<close>

fun missing_maps :: "catalog_item list \<Rightarrow> string option set \<Rightarrow> catalog_item list" where
  "missing_maps [] existing_md5 = []"
| "missing_maps (m # unique) existing_md5 =
     (if md5 m \<notin> existing_md5 then m # missing_maps unique existing_md5
      else missing_maps unique existing_md5)"

text \<open>The hashes that \<^verbatim>\<open>not md\<close> lets through: present and not the empty text.\<close>

definition truthy_md5 :: "catalog_item \<Rightarrow> bool" where
  "truthy_md5 m = (case md5 m of None \<Rightarrow> False | Some md \<Rightarrow> md \<noteq> [])"

text \<open>
  Deduplication in the words of the specification: the first occurrence of each hash
  is kept, later items with that hash are dropped.
\<close>

function keep_first :: "catalog_item list \<Rightarrow> catalog_item list" where
  "keep_first [] = []"
| "keep_first (m # ms) = m # keep_first (filter (\<lambda>x. md5 x \<noteq> md5 m) ms)"
  by pat_completeness auto
termination
  by (relation "measure length") (auto simp: less_Suc_eq_le)

text \<open>
  The world around one run of \<^verbatim>\<open>task\<close>: the song database, the catalog server, the
  answers to the two questions asked, the download service, the file system, the clock,
  the download directory, the zip library and the directory listing.
\<close>

record world =
  songdata_db :: "string option list option"
  get_all_maps :: "string \<Rightarrow> catalog_item list option"
  confirm_answer :: bool
  extract_answer :: bool
  nerinyan :: service
  filesystem :: disk
  time_now :: rat
  output_path :: "directory option"
  unzip_lib :: zipfile
  listdir_lib :: "directory \<Rightarrow> string list"

datatype ending = NoInventory | MapListFailed | NothingMissing | Cancelled | Completed

record task_result =
  ending :: ending
  dialogs :: "dialog list"
  catalog_requests :: "string list"
  download_requests :: "string list"
  progress_calls :: "(nat \<times> nat \<times> rat) list"
  final_dir :: "directory option"

definition stopped :: "world \<Rightarrow> ending \<Rightarrow> dialog list \<Rightarrow> string list \<Rightarrow> task_result" where
  "stopped w e ds fetched =
     \<lparr>ending = e, dialogs = ds, catalog_requests = fetched, download_requests = [],
      progress_calls = [], final_dir = output_path w\<rparr>"

text \<open>
  \<^verbatim>\<open>task\<close>, the body of \<^verbatim>\<open>start_download\<close>, without the widgets it updates.
\<close>

definition task ::
  "world \<Rightarrow> string list \<Rightarrow> (string \<rightharpoonup> int \<times> int) \<Rightarrow> bool \<Rightarrow> task_result" where
  "task w selected_tables level_ranges_int auto_extract =
     (case get_existing_md5 (songdata_db w) of
        (shown, existing_md5) \<Rightarrow>
          if existing_md5 = {} then stopped w NoInventory shown []
          else
            (case table_loop (get_all_maps w) level_ranges_int selected_tables [] [] of
               (Inl table, fetched) \<Rightarrow>
                 stopped w MapListFailed (shown @ [ErrorMapList table]) fetched
             | (Inr combined_maps, fetched) \<Rightarrow>
                 (let missing = missing_maps (unique_maps combined_maps) existing_md5;
                      total_missing = length missing
                  in if total_missing = 0
                     then stopped w NothingMissing (shown @ [InfoAllPresent]) fetched
                     else if \<not> confirm_answer w
                     then stopped w Cancelled (shown @ [ConfirmDownload total_missing]) fetched
                     else
                       (let s = download_missing_maps (nerinyan w) (filesystem w) (time_now w) missing
                                  (output_path w);
                            extract = extract_osz_files (unzip_lib w) (listdir_lib w)
                                        (Some (files s))
                        in \<lparr>ending = Completed,
                            dialogs = shown @ [ConfirmDownload total_missing] @
                              (if auto_extract then [InfoExtractedDeleted]
                               else if extract_answer w then [AskExtractNow, InfoExtractionComplete]
                               else [AskExtractNow]),
                            catalog_requests = fetched,
                            download_requests = requests s,
                            progress_calls = calls s,
                            final_dir =
                              (if auto_extract then extract True
                               else if extract_answer w then extract False
                               else Some (files s))\<rparr>))))"

section \<open>Example worlds\<close>

text \<open>A download service that gives the same answer to every request.\<close>

definition always :: "response \<Rightarrow> service" where
  "always r = (\<lambda>k download_url. r)"

text \<open>
  A file system that opens and writes every file, and one that refuses to open a file
  whose name is longer than a limit (255 bytes on the usual file systems).
\<close>

definition accepting :: disk where
  "accepting = (\<lambda>k filename. Opens None)"

definition name_limit :: "nat \<Rightarrow> disk" where
  "name_limit n = (\<lambda>k filename. if n < length filename then OpenFails else Opens None)"

text \<open>
  A zip library for which the bytes \<^verbatim>\<open>PKgood\<close> are an archive with the one member
  \<^verbatim>\<open>map.osu\<close> and every other file is corrupt; a listing that gives fixed names.
\<close>

definition unzip_one_good :: zipfile where
  "unzip_one_good bytes folder =
     (if bytes = ''PKgood''
      then (Some ((case folder of None \<Rightarrow> Map.empty | Some below \<Rightarrow> below)
                    (''map.osu'' \<mapsto> ''notes'')), False)
      else (folder, True))"

definition listing :: "string list \<Rightarrow> directory \<Rightarrow> string list" where
  "listing names = (\<lambda>dir. names)"

text \<open>
  A world in which every catalog holds one map of level 3.5, both questions are answered
  with yes and every download succeeds; only the song database varies.
\<close>

definition example_world :: "string option list option \<Rightarrow> world" where
  "example_world db =
     \<lparr>songdata_db = db,
      get_all_maps = (\<lambda>json_url.
        Some [\<lparr>title = ''New'', artist = ''Band'',
               url = ''https://osu.ppy.sh/beatmapsets/12#mania/34'',
               level = Some (Finite (7 / 2)), md5 = Some ''aa''\<rparr>]),
      confirm_answer = True,
      extract_answer = True,
      nerinyan = always (Answer NoHeader [''PKgood''] False),
      filesystem = accepting,
      time_now = 0,
      output_path = None,
      unzip_lib = unzip_one_good,
      listdir_lib = listing [''New - Band [12].osz'']\<rparr>"

section \<open>Properties of the helper functions\<close>

lemma extract_beatmapset_id_digits:
  "extract_beatmapset_id u = Some bid \<Longrightarrow> bid \<noteq> [] \<and> (\<forall>c \<in> set bid. is_digit c)"
proof (induction u)
  case Nil
  then show ?case by simp
next
  case (Cons c cs)
  show ?case
  proof (cases "take 12 (c # cs) = ''beatmapsets/'' \<and> takeWhile is_digit (drop 12 (c # cs)) \<noteq> []")
    case True
    with Cons.prems have "bid = takeWhile is_digit (drop 12 (c # cs))"
      by (simp del: take_Cons_numeral drop_Cons_numeral)
    with True show ?thesis
      by (auto dest: set_takeWhileD)
  next
    case False
    with Cons.prems have "extract_beatmapset_id cs = Some bid"
      by (simp del: take_Cons_numeral drop_Cons_numeral)
    then show ?thesis by (rule Cons.IH)
  qed
qed

lemma sanitize_filename_clean: "c \<in> set invalid_chars \<Longrightarrow> c \<notin> set (sanitize_filename name)"
  by (simp add: sanitize_filename_def)

lemma target_filename_no_separator:
  assumes "extract_beatmapset_id (url m) = Some bid"
  shows "CHR ''/'' \<notin> set (target_filename m bid) \<and> CHR 0x5C \<notin> set (target_filename m bid)"
proof -
  have digits: "\<forall>c \<in> set bid. is_digit c"
    using assms extract_beatmapset_id_digits by blast
  have "\<not> is_digit (CHR ''/'')" "\<not> is_digit (CHR 0x5C)"
    by (simp_all add: is_digit_def)
  with digits have "CHR ''/'' \<notin> set bid" "CHR 0x5C \<notin> set bid"
    by blast+
  moreover have "CHR ''/'' \<in> set invalid_chars" "CHR 0x5C \<in> set invalid_chars"
    by (simp_all add: invalid_chars_def)
  ultimately show ?thesis
    by (simp add: target_filename_def sanitize_filename_clean)
qed

section \<open>Properties of one iteration of the download loop\<close>

lemma advance_fields:
  "files (advance tot t0 oc s) = files s"
  "requests (advance tot t0 oc s) = requests s"
  "calls (advance tot t0 oc s) = calls s @ [(Suc (done_count s), tot, t0)]"
  "done_count (advance tot t0 oc s) = Suc (done_count s)"
  "outcomes (advance tot t0 oc s) = outcomes s @ [oc]"
  by (simp_all add: advance_def)

lemma try_body_Continued:
  "try_body net fs tot t0 u f s = (Continued, s') \<Longrightarrow>
     files s' = files s \<and> done_count s' = Suc (done_count s) \<and>
     calls s' = calls s @ [(Suc (done_count s), tot, t0)] \<and>
     outcomes s' = outcomes s @ [SkippedUndersized]"
  by (auto simp: try_body_def Let_def advance_fields
           split: response.splits option.splits fs_answer.splits prod.splits if_splits)

lemma try_body_other:
  "try_body net fs tot t0 u f s = (fl, s') \<Longrightarrow> fl \<noteq> Continued \<Longrightarrow>
     done_count s' = done_count s \<and> calls s' = calls s \<and> outcomes s' = outcomes s"
  by (auto simp: try_body_def Let_def split: response.splits option.splits fs_answer.splits prod.splits if_splits)

lemma try_body_keeps_files:
  "try_body net fs tot t0 u fname s = (fl, s') \<Longrightarrow> files s fname = None \<Longrightarrow>
   files s f = Some e \<Longrightarrow> files s' f = Some e"
  by (auto simp: try_body_def Let_def advance_fields
           split: response.splits option.splits fs_answer.splits prod.splits if_splits)

lemma try_body_transport_error:
  "transport_error (net (length (requests s)) u) \<Longrightarrow> fst (try_body net fs tot t0 u fname s) = Raised"
  by (cases "net (length (requests s)) u")
     (auto simp: try_body_def Let_def split: option.splits fs_answer.splits prod.splits)

lemma process_item_no_id:
  "extract_beatmapset_id (url m) = None \<Longrightarrow>
     process_item net fs tot t0 m s = advance tot t0 SkippedNoAssetId s"
  by (simp add: process_item_def)

lemma process_item_existing:
  "extract_beatmapset_id (url m) = Some bid \<Longrightarrow> files s (target_filename m bid) \<noteq> None \<Longrightarrow>
     process_item net fs tot t0 m s = advance tot t0 SkippedExisting s"
  by (simp add: process_item_def)

lemma process_item_fetch:
  "extract_beatmapset_id (url m) = Some bid \<Longrightarrow> files s (target_filename m bid) = None \<Longrightarrow>
   try_body net fs tot t0 (NERINYAN_BASE @ bid) (target_filename m bid) s = (fl, s') \<Longrightarrow>
     process_item net fs tot t0 m s =
       (case fl of Continued \<Rightarrow> s'
        | Raised \<Rightarrow> advance tot t0 SkippedError s'
        | Finished \<Rightarrow> advance tot t0 Fetched s')"
  by (simp add: process_item_def split: flow.splits)

text \<open>
  Every path through the loop body counts the item once, calls the callback once and
  records one outcome.
\<close>

lemma process_item_progress:
  "done_count (process_item net fs tot t0 m s) = Suc (done_count s) \<and>
   calls (process_item net fs tot t0 m s) = calls s @ [(Suc (done_count s), tot, t0)] \<and>
   (\<exists>oc. outcomes (process_item net fs tot t0 m s) = outcomes s @ [oc])"
proof (cases "extract_beatmapset_id (url m)")
  case None
  then show ?thesis by (simp add: process_item_no_id advance_fields)
next
  case (Some bid)
  show ?thesis
  proof (cases "files s (target_filename m bid) = None")
    case False
    with Some show ?thesis by (simp add: process_item_existing advance_fields)
  next
    case absent: True
    obtain fl s' where tb:
      "try_body net fs tot t0 (NERINYAN_BASE @ bid) (target_filename m bid) s = (fl, s')"
      by (cases "try_body net fs tot t0 (NERINYAN_BASE @ bid) (target_filename m bid) s") auto
    show ?thesis
    proof (cases "fl = Continued")
      case True
      with tb have "done_count s' = Suc (done_count s)"
        "calls s' = calls s @ [(Suc (done_count s), tot, t0)]"
        "outcomes s' = outcomes s @ [SkippedUndersized]"
        using try_body_Continued by blast+
      with Some absent tb True show ?thesis
        by (simp add: process_item_fetch)
    next
      case False
      with tb have "done_count s' = done_count s" "calls s' = calls s" "outcomes s' = outcomes s"
        using try_body_other by blast+
      with Some absent tb False show ?thesis
        by (cases fl) (simp_all add: process_item_fetch advance_fields)
    qed
  qed
qed

text \<open>An entry of the directory is never overwritten or removed by the loop body.\<close>

lemma process_item_keeps_files:
  assumes "files s f = Some e"
  shows "files (process_item net fs tot t0 m s) f = Some e"
proof (cases "extract_beatmapset_id (url m)")
  case None
  with assms show ?thesis by (simp add: process_item_no_id advance_fields)
next
  case (Some bid)
  show ?thesis
  proof (cases "files s (target_filename m bid) = None")
    case False
    with Some assms show ?thesis by (simp add: process_item_existing advance_fields)
  next
    case absent: True
    obtain fl s' where tb:
      "try_body net fs tot t0 (NERINYAN_BASE @ bid) (target_filename m bid) s = (fl, s')"
      by (cases "try_body net fs tot t0 (NERINYAN_BASE @ bid) (target_filename m bid) s") auto
    then have "files s' f = Some e"
      using absent assms by (rule try_body_keeps_files)
    with Some absent tb show ?thesis
      by (cases fl) (simp_all add: process_item_fetch advance_fields)
  qed
qed

section \<open>Properties of a run\<close>

lemma download_loop_append:
  "download_loop net fs tot t0 (xs @ ys) s =
     download_loop net fs tot t0 ys (download_loop net fs tot t0 xs s)"
  by (induction xs arbitrary: s) simp_all

lemma download_loop_calls:
  "calls (download_loop net fs tot t0 ms s) =
     calls s @ map (\<lambda>i. (i, tot, t0)) [Suc (done_count s) ..< Suc (done_count s + length ms)]"
proof (induction ms arbitrary: s)
  case Nil
  then show ?case by simp
next
  case (Cons m ms)
  have "[Suc (done_count s) ..< Suc (done_count s + length (m # ms))] =
          Suc (done_count s) # [Suc (Suc (done_count s)) ..< Suc (done_count s + length (m # ms))]"
    by (rule upt_conv_Cons) simp
  moreover have "Suc (done_count s + length (m # ms)) = Suc (Suc (done_count s) + length ms)"
    by simp
  ultimately have "[Suc (done_count s) ..< Suc (done_count s + length (m # ms))] =
          Suc (done_count s) # [Suc (Suc (done_count s)) ..< Suc (Suc (done_count s) + length ms)]"
    by (simp only:)
  then show ?case
    by (simp only: download_loop.simps Cons.IH process_item_progress list.map
          append_assoc append_Cons append_Nil)
qed

lemma download_loop_outcomes:
  "\<exists>ocs. outcomes (download_loop net fs tot t0 ms s) = outcomes s @ ocs \<and> length ocs = length ms"
proof (induction ms arbitrary: s)
  case Nil
  then show ?case by simp
next
  case (Cons m ms)
  obtain oc where oc: "outcomes (process_item net fs tot t0 m s) = outcomes s @ [oc]"
    using process_item_progress by blast
  obtain ocs where ocs:
    "outcomes (download_loop net fs tot t0 ms (process_item net fs tot t0 m s)) =
       outcomes (process_item net fs tot t0 m s) @ ocs" "length ocs = length ms"
    using Cons.IH by blast
  have "outcomes (download_loop net fs tot t0 (m # ms) s) = outcomes s @ (oc # ocs)"
    using oc ocs by simp
  moreover have "length (oc # ocs) = length (m # ms)"
    using ocs by simp
  ultimately show ?case by blast
qed

lemma download_loop_outcomes_length:
  "length (outcomes (download_loop net fs tot t0 ms s)) = length (outcomes s) + length ms"
  using download_loop_outcomes [of net fs tot t0 ms s] by auto

lemma download_loop_calls_length:
  "length (calls (download_loop net fs tot t0 ms s)) = length (calls s) + length ms"
  by (induction ms arbitrary: s) (simp_all add: process_item_progress)

lemma download_loop_keeps_files:
  "files s f = Some e \<Longrightarrow> files (download_loop net fs tot t0 ms s) f = Some e"
  by (induction ms arbitrary: s) (simp_all add: process_item_keeps_files)

lemma state_before_Suc:
  assumes "i < length ms"
  shows "state_before net fs t0 ms droot (Suc i) =
           process_item net fs (length ms) t0 (ms ! i) (state_before net fs t0 ms droot i)"
proof -
  have "take (Suc i) ms = take i ms @ [ms ! i]"
    using assms by (rule take_Suc_conv_app_nth)
  then show ?thesis
    by (simp add: state_before_def download_loop_append)
qed

lemma run_from_state_before:
  assumes "i \<le> length ms"
  shows "download_missing_maps net fs t0 ms droot =
           download_loop net fs (length ms) t0 (drop i ms) (state_before net fs t0 ms droot i)"
proof -
  have "download_loop net fs (length ms) t0 (take i ms @ drop i ms) (initial_state (makedirs droot)) =
          download_loop net fs (length ms) t0 (drop i ms) (state_before net fs t0 ms droot i)"
    unfolding state_before_def by (rule download_loop_append)
  then show ?thesis
    by (simp add: download_missing_maps_def)
qed

lemma state_before_outcomes_length:
  "i \<le> length ms \<Longrightarrow> length (outcomes (state_before net fs t0 ms droot i)) = i"
  by (simp add: state_before_def download_loop_outcomes_length initial_state_def)

lemma state_before_keeps_files:
  "makedirs droot f = Some e \<Longrightarrow> files (state_before net fs t0 ms droot i) f = Some e"
  by (simp add: state_before_def download_loop_keeps_files initial_state_def)

lemma run_keeps_files:
  assumes "i \<le> length ms" and "files (state_before net fs t0 ms droot i) f = Some e"
  shows "files (download_missing_maps net fs t0 ms droot) f = Some e"
  using assms by (simp add: run_from_state_before [of i] download_loop_keeps_files)

text \<open>The outcome of item \<open>i\<close> is the one its own iteration appends.\<close>

lemma outcome_of_item:
  assumes "i < length ms"
      and "outcomes (state_before net fs t0 ms droot (Suc i)) =
             outcomes (state_before net fs t0 ms droot i) @ [oc]"
  shows "outcomes (download_missing_maps net fs t0 ms droot) ! i = oc"
proof -
  have run: "download_missing_maps net fs t0 ms droot =
      download_loop net fs (length ms) t0 (drop (Suc i) ms) (state_before net fs t0 ms droot (Suc i))"
    using assms(1) by (simp add: run_from_state_before)
  obtain ocs where "outcomes (download_missing_maps net fs t0 ms droot) =
      outcomes (state_before net fs t0 ms droot (Suc i)) @ ocs"
    using download_loop_outcomes run by metis
  then have "outcomes (download_missing_maps net fs t0 ms droot) =
      outcomes (state_before net fs t0 ms droot i) @ oc # ocs"
    using assms(2) by simp
  moreover have "length (outcomes (state_before net fs t0 ms droot i)) = i"
    using assms(1) by (simp add: state_before_outcomes_length)
  ultimately show ?thesis
    by (metis nth_append_length)
qed

lemma step_existing:
  assumes "i < length ms"
      and "extract_beatmapset_id (url (ms ! i)) = Some bid"
      and "files (state_before net fs t0 ms droot i) (target_filename (ms ! i) bid) \<noteq> None"
  shows "state_before net fs t0 ms droot (Suc i) =
           advance (length ms) t0 SkippedExisting (state_before net fs t0 ms droot i)"
  using assms by (simp add: state_before_Suc process_item_existing)

lemma concat_nonempty: "concat (filter (\<lambda>chunk. chunk \<noteq> []) chunks) = concat chunks"
  by (induction chunks) simp_all

lemma write_chunks_all: "write_chunks None chunks = (concat chunks, False)"
  by (simp add: write_chunks_def concat_nonempty)

lemma step_fetch:
  assumes "i < length ms"
      and "extract_beatmapset_id (url (ms ! i)) = Some bid"
      and "files (state_before net fs t0 ms droot i) (target_filename (ms ! i) bid) = None"
      and "try_body net fs (length ms) t0 (NERINYAN_BASE @ bid) (target_filename (ms ! i) bid)
             (state_before net fs t0 ms droot i) = (fl, s')"
  shows "state_before net fs t0 ms droot (Suc i) =
           (case fl of Continued \<Rightarrow> s'
            | Raised \<Rightarrow> advance (length ms) t0 SkippedError s'
            | Finished \<Rightarrow> advance (length ms) t0 Fetched s')"
  using assms by (simp add: state_before_Suc process_item_fetch)

lemma try_body_streamed:
  assumes "net (length (requests s)) u = Answer cl chunks broken"
      and "total_length_of cl = Some n" and "n = 0 \<or> 200000 \<le> n"
      and "fs (length (requests s)) fname = Opens writes"
  shows "try_body net fs tot t0 u fname s =
           (if snd (write_chunks writes chunks) \<or> broken then Raised else Finished,
            s\<lparr>requests := requests s @ [u],
              files := (files s)(fname \<mapsto> File (fst (write_chunks writes chunks)))\<rparr>)"
  using assms by (auto simp: try_body_def split: prod.splits)

text \<open>The definitions that evaluate a run on a concrete worklist.\<close>

lemmas engine_eval =
  download_missing_maps_def state_before_def initial_state_def makedirs_def process_item_def
  try_body_def advance_def always_def accepting_def name_limit_def write_chunks_def
  NERINYAN_BASE_def
  target_filename_def sanitize_filename_def invalid_chars_def is_digit_def

section \<open>The download engine: claims\<close>

lemma count_last_of_upt:
  "length (filter (\<lambda>i. i = n) [1 ..< Suc n]) = (if n = 0 then 0 else 1)"
proof (cases "n = 0")
  case True
  then show ?thesis by simp
next
  case False
  have "filter (\<lambda>i. i = n) [1 ..< n] = []"
    by (simp add: filter_empty_conv)
  with False show ?thesis by simp
qed

text \<open>
  Claim C2. For every worklist the progress callback is called once per work item,
  whatever path the item took: the calls are \<open>(1, total, start_time)\<close>, ...,
  \<open>(total, total, start_time)\<close> in this order, there is one outcome per item, and
  exactly one call has \<open>completed = total\<close> (none for the empty worklist, which makes
  no call).
\<close>

theorem progress_once_per_item:
  "calls (download_missing_maps net fs t0 ms droot) =
     map (\<lambda>i. (i, length ms, t0)) [1 ..< Suc (length ms)] \<and>
   length (outcomes (download_missing_maps net fs t0 ms droot)) = length ms \<and>
   length (filter (\<lambda>c. fst c = length ms) (calls (download_missing_maps net fs t0 ms droot))) =
     (if ms = [] then 0 else 1)"
proof -
  have calls: "calls (download_missing_maps net fs t0 ms droot) =
      map (\<lambda>i. (i, length ms, t0)) [1 ..< Suc (length ms)]"
    by (simp add: download_missing_maps_def download_loop_calls initial_state_def)
  have "filter (\<lambda>c. fst c = length ms) (map (\<lambda>i. (i, length ms, t0)) [1 ..< Suc (length ms)]) =
      map (\<lambda>i. (i, length ms, t0)) (filter (\<lambda>i. i = length ms) [1 ..< Suc (length ms)])"
    by (simp only: filter_map comp_def fst_conv)
  then have "length (filter (\<lambda>c. fst c = length ms) (calls (download_missing_maps net fs t0 ms droot))) =
      (if ms = [] then 0 else 1)"
    using count_last_of_upt [of "length ms"] by (simp only: calls length_map length_0_conv)
  moreover have "length (outcomes (download_missing_maps net fs t0 ms droot)) = length ms"
    by (simp add: download_missing_maps_def download_loop_outcomes_length initial_state_def)
  ultimately show ?thesis
    using calls by blast
qed

text \<open>
  Witness for claim C2, the scenario of the specification: an item without asset id,
  an item whose file exists, an item that is fetched.
\<close>

theorem progress_once_per_item_witness:
  "calls (download_missing_maps (always (Answer NoHeader [''PK''] False)) accepting 0
      [\<lparr>title = ''A'', artist = ''B'', url = ''https://osu.ppy.sh/users/2'',
        level = None, md5 = None\<rparr>,
       \<lparr>title = ''Old'', artist = ''Band'', url = ''https://osu.ppy.sh/beatmapsets/7'',
        level = None, md5 = None\<rparr>,
       \<lparr>title = ''New'', artist = ''Band'', url = ''https://osu.ppy.sh/beatmapsets/12#mania/34'',
        level = None, md5 = None\<rparr>]
      (Some [''Old - Band [7].osz'' \<mapsto> File ''PK''])) = [(1, 3, 0), (2, 3, 0), (3, 3, 0)] \<and>
   outcomes (download_missing_maps (always (Answer NoHeader [''PK''] False)) accepting 0
      [\<lparr>title = ''A'', artist = ''B'', url = ''https://osu.ppy.sh/users/2'',
        level = None, md5 = None\<rparr>,
       \<lparr>title = ''Old'', artist = ''Band'', url = ''https://osu.ppy.sh/beatmapsets/7'',
        level = None, md5 = None\<rparr>,
       \<lparr>title = ''New'', artist = ''Band'', url = ''https://osu.ppy.sh/beatmapsets/12#mania/34'',
        level = None, md5 = None\<rparr>]
      (Some [''Old - Band [7].osz'' \<mapsto> File ''PK''])) =
     [SkippedNoAssetId, SkippedExisting, Fetched]"
  using progress_once_per_item [of "always (Answer NoHeader [''PK''] False)" accepting 0
      "[\<lparr>title = ''A'', artist = ''B'', url = ''https://osu.ppy.sh/users/2'',
        level = None, md5 = None\<rparr>,
       \<lparr>title = ''Old'', artist = ''Band'', url = ''https://osu.ppy.sh/beatmapsets/7'',
        level = None, md5 = None\<rparr>,
       \<lparr>title = ''New'', artist = ''Band'', url = ''https://osu.ppy.sh/beatmapsets/12#mania/34'',
        level = None, md5 = None\<rparr>]"
      "Some [''Old - Band [7].osz'' \<mapsto> File ''PK'']"]
  by (simp add: upt_rec engine_eval)

text \<open>
  Claim C7. When the turn of a work item comes and an entry with its target file name
  exists in the download directory, the outcome is \<open>SkippedExisting\<close>; no request is
  sent for the item and the directory is left as it is. An entry that is in the
  directory when the run starts is still there when the turn of the item comes
  (\<open>state_before_keeps_files\<close>).
\<close>

theorem existing_file_skipped:
  assumes "i < length ms"
      and "extract_beatmapset_id (url (ms ! i)) = Some bid"
      and "files (state_before net fs t0 ms droot i) (target_filename (ms ! i) bid) \<noteq> None"
  shows "outcomes (download_missing_maps net fs t0 ms droot) ! i = SkippedExisting \<and>
         requests (state_before net fs t0 ms droot (Suc i)) = requests (state_before net fs t0 ms droot i) \<and>
         files (state_before net fs t0 ms droot (Suc i)) = files (state_before net fs t0 ms droot i)"
proof -
  have step: "state_before net fs t0 ms droot (Suc i) =
      advance (length ms) t0 SkippedExisting (state_before net fs t0 ms droot i)"
    using assms by (rule step_existing)
  then have "outcomes (state_before net fs t0 ms droot (Suc i)) =
      outcomes (state_before net fs t0 ms droot i) @ [SkippedExisting]"
    by (simp add: advance_fields)
  with assms(1) have "outcomes (download_missing_maps net fs t0 ms droot) ! i = SkippedExisting"
    by (rule outcome_of_item)
  with step show ?thesis
    by (simp add: advance_fields)
qed

text \<open>
  Witness for claim C7: a directory that holds the file of the only work item; no
  request is sent.
\<close>

theorem existing_file_skipped_witness:
  "outcomes (download_missing_maps (always (Answer NoHeader [''PK''] False)) accepting 0
      [\<lparr>title = ''Old'', artist = ''Band'', url = ''https://osu.ppy.sh/beatmapsets/7'',
        level = None, md5 = None\<rparr>]
      (Some [''Old - Band [7].osz'' \<mapsto> File ''PK''])) ! 0 = SkippedExisting \<and>
   requests (state_before (always (Answer NoHeader [''PK''] False)) accepting 0
      [\<lparr>title = ''Old'', artist = ''Band'', url = ''https://osu.ppy.sh/beatmapsets/7'',
        level = None, md5 = None\<rparr>]
      (Some [''Old - Band [7].osz'' \<mapsto> File ''PK'']) (Suc 0)) = []"
  using existing_file_skipped [of 0
      "[\<lparr>title = ''Old'', artist = ''Band'', url = ''https://osu.ppy.sh/beatmapsets/7'',
        level = None, md5 = None\<rparr>]" "''7''" "always (Answer NoHeader [''PK''] False)" accepting 0
      "Some [''Old - Band [7].osz'' \<mapsto> File ''PK'']"]
  by (simp add: engine_eval)

text \<open>
  Claim C3. A transport error while one work item is fetched or streamed becomes that
  item's outcome \<open>SkippedError\<close>. The run goes on: it is the loop over the remaining
  items from the state the failed item leaves, every item gets an outcome and a progress
  call. The model of the run is a total function: the only statements of the loop that can
  raise stand in the \<^verbatim>\<open>try\<close> block, whose exception the handler swallows.
\<close>

theorem transport_error_absorbed:
  assumes "i < length ms"
      and "extract_beatmapset_id (url (ms ! i)) = Some bid"
      and "files (state_before net fs t0 ms droot i) (target_filename (ms ! i) bid) = None"
      and "transport_error
             (net (length (requests (state_before net fs t0 ms droot i))) (NERINYAN_BASE @ bid))"
  shows "outcomes (download_missing_maps net fs t0 ms droot) ! i = SkippedError \<and>
         length (outcomes (download_missing_maps net fs t0 ms droot)) = length ms \<and>
         length (calls (download_missing_maps net fs t0 ms droot)) = length ms \<and>
         download_missing_maps net fs t0 ms droot =
           download_loop net fs (length ms) t0 (drop (Suc i) ms)
             (state_before net fs t0 ms droot (Suc i))"
proof -
  let ?s = "state_before net fs t0 ms droot i"
  obtain fl s' where tb:
    "try_body net fs (length ms) t0 (NERINYAN_BASE @ bid) (target_filename (ms ! i) bid) ?s = (fl, s')"
    by (cases "try_body net fs (length ms) t0 (NERINYAN_BASE @ bid) (target_filename (ms ! i) bid) ?s")
       auto
  have fl: "fl = Raised"
    using try_body_transport_error [of net ?s "NERINYAN_BASE @ bid" fs "length ms" t0
        "target_filename (ms ! i) bid"] assms(4) tb
    by simp
  then have "outcomes s' = outcomes ?s"
    using tb try_body_other by blast
  moreover have "state_before net fs t0 ms droot (Suc i) = advance (length ms) t0 SkippedError s'"
    using assms(1-3) tb fl by (simp add: state_before_Suc process_item_fetch)
  ultimately have "outcomes (state_before net fs t0 ms droot (Suc i)) = outcomes ?s @ [SkippedError]"
    by (simp add: advance_fields)
  with assms(1) have "outcomes (download_missing_maps net fs t0 ms droot) ! i = SkippedError"
    by (rule outcome_of_item)
  moreover have "length (outcomes (download_missing_maps net fs t0 ms droot)) = length ms"
    by (simp add: download_missing_maps_def download_loop_outcomes_length initial_state_def)
  moreover have "length (calls (download_missing_maps net fs t0 ms droot)) = length ms"
    by (simp add: download_missing_maps_def download_loop_calls_length initial_state_def)
  moreover have "download_missing_maps net fs t0 ms droot =
      download_loop net fs (length ms) t0 (drop (Suc i) ms) (state_before net fs t0 ms droot (Suc i))"
    using assms(1) by (simp add: run_from_state_before)
  ultimately show ?thesis by blast
qed

text \<open>
  Witness for claim C3: the first of two requests fails to connect; the second item is
  fetched.
\<close>

theorem transport_error_absorbed_witness:
  "outcomes (download_missing_maps
      (\<lambda>k. if k = 0 then always ConnectFailed k else always (Answer NoHeader [''PK''] False) k)
      accepting 0
      [\<lparr>title = ''One'', artist = ''Band'', url = ''https://osu.ppy.sh/beatmapsets/7'',
        level = None, md5 = None\<rparr>,
       \<lparr>title = ''Two'', artist = ''Band'', url = ''https://osu.ppy.sh/beatmapsets/8'',
        level = None, md5 = None\<rparr>]
      None) = [SkippedError, Fetched]"
  using transport_error_absorbed [of 0
      "[\<lparr>title = ''One'', artist = ''Band'', url = ''https://osu.ppy.sh/beatmapsets/7'',
        level = None, md5 = None\<rparr>,
       \<lparr>title = ''Two'', artist = ''Band'', url = ''https://osu.ppy.sh/beatmapsets/8'',
        level = None, md5 = None\<rparr>]" "''7''"
      "\<lambda>k. if k = 0 then always ConnectFailed k else always (Answer NoHeader [''PK''] False) k"
      accepting 0 None]
  by (simp add: engine_eval)




text \<open>
  Claim C10. When the stream of a work item breaks after the file was opened, the
  bytes written so far stay in the file at the target file name (all chunks read, where
  every write succeeded) and the outcome is \<open>SkippedError\<close>. A later run on the directory
  as this run left it, whatever the service and the file system do then, gives the same
  item the outcome \<open>SkippedExisting\<close> and sends no request for it.
\<close>

theorem partial_file_blocks_retry:
  assumes "i < length ms"
      and "extract_beatmapset_id (url (ms ! i)) = Some bid"
      and "files (state_before net fs t0 ms droot i) (target_filename (ms ! i) bid) = None"
      and "net (length (requests (state_before net fs t0 ms droot i))) (NERINYAN_BASE @ bid) =
             Answer cl chunks True"
      and "total_length_of cl = Some n" and "n = 0 \<or> 200000 \<le> n"
      and "fs (length (requests (state_before net fs t0 ms droot i)))
             (target_filename (ms ! i) bid) = Opens writes"
      and "j < length ms2" and "ms2 ! j = ms ! i"
  shows "outcomes (download_missing_maps net fs t0 ms droot) ! i = SkippedError \<and>
         files (download_missing_maps net fs t0 ms droot) (target_filename (ms ! i) bid) =
           Some (File (fst (write_chunks writes chunks))) \<and>
         (writes = None \<longrightarrow>
            files (download_missing_maps net fs t0 ms droot) (target_filename (ms ! i) bid) =
              Some (File (concat chunks))) \<and>
         outcomes (download_missing_maps net2 fs2 t2 ms2
           (Some (files (download_missing_maps net fs t0 ms droot)))) ! j = SkippedExisting \<and>
         requests (state_before net2 fs2 t2 ms2
           (Some (files (download_missing_maps net fs t0 ms droot))) (Suc j)) =
         requests (state_before net2 fs2 t2 ms2
           (Some (files (download_missing_maps net fs t0 ms droot))) j)"
proof -
  let ?s = "state_before net fs t0 ms droot i"
  let ?f = "target_filename (ms ! i) bid"
  let ?u = "NERINYAN_BASE @ bid"
  let ?bytes = "fst (write_chunks writes chunks)"
  let ?s2 = "?s\<lparr>requests := requests ?s @ [?u], files := (files ?s)(?f \<mapsto> File ?bytes)\<rparr>"
  let ?left = "files (download_missing_maps net fs t0 ms droot)"
  have "try_body net fs (length ms) t0 ?u ?f ?s = (Raised, ?s2)"
    using assms(4-7)
      try_body_streamed [of net ?s ?u cl chunks True n fs ?f writes "length ms" t0]
    by simp
  with assms(1-3) have step: "state_before net fs t0 ms droot (Suc i) =
      advance (length ms) t0 SkippedError ?s2"
    by (simp add: step_fetch)
  then have "outcomes (state_before net fs t0 ms droot (Suc i)) = outcomes ?s @ [SkippedError]"
    by (simp add: advance_fields)
  with assms(1) have first: "outcomes (download_missing_maps net fs t0 ms droot) ! i = SkippedError"
    by (rule outcome_of_item)
  from step have "files (state_before net fs t0 ms droot (Suc i)) ?f = Some (File ?bytes)"
    by (simp add: advance_fields)
  with assms(1) have left: "?left ?f = Some (File ?bytes)"
    by (intro run_keeps_files [of "Suc i"]) simp_all
  then have whole: "writes = None \<longrightarrow> ?left ?f = Some (File (concat chunks))"
    by (simp add: write_chunks_all)
  from left have "makedirs (Some ?left) ?f = Some (File ?bytes)"
    by (simp add: makedirs_def)
  then have "files (state_before net2 fs2 t2 ms2 (Some ?left) j) ?f = Some (File ?bytes)"
    by (rule state_before_keeps_files)
  then have "files (state_before net2 fs2 t2 ms2 (Some ?left) j) (target_filename (ms2 ! j) bid) \<noteq> None"
    using assms(9) by simp
  moreover have "extract_beatmapset_id (url (ms2 ! j)) = Some bid"
    using assms(2,9) by simp
  ultimately have step2: "state_before net2 fs2 t2 ms2 (Some ?left) (Suc j) =
      advance (length ms2) t2 SkippedExisting (state_before net2 fs2 t2 ms2 (Some ?left) j)"
    using assms(8) by (intro step_existing) simp_all
  then have "outcomes (state_before net2 fs2 t2 ms2 (Some ?left) (Suc j)) =
      outcomes (state_before net2 fs2 t2 ms2 (Some ?left) j) @ [SkippedExisting]"
    by (simp add: advance_fields)
  with assms(8) have "outcomes (download_missing_maps net2 fs2 t2 ms2 (Some ?left)) ! j =
      SkippedExisting"
    by (rule outcome_of_item)
  with step2 have second:
    "outcomes (download_missing_maps net2 fs2 t2 ms2 (Some ?left)) ! j = SkippedExisting \<and>
     requests (state_before net2 fs2 t2 ms2 (Some ?left) (Suc j)) =
       requests (state_before net2 fs2 t2 ms2 (Some ?left) j)"
    by (simp add: advance_fields)
  from first left whole second show ?thesis by blast
qed

text \<open>
  Witness for claim C10: a stream that breaks after four bytes; the second run would
  get the whole body.
\<close>

theorem partial_file_blocks_retry_witness:
  "files (download_missing_maps (always (Answer NoHeader [''PK'', ''xy''] True)) accepting 0
      [\<lparr>title = ''New'', artist = ''Band'', url = ''https://osu.ppy.sh/beatmapsets/12#mania/34'',
        level = None, md5 = None\<rparr>] None) ''New - Band [12].osz'' = Some (File ''PKxy'') \<and>
   outcomes (download_missing_maps (always (Answer NoHeader [''PK'', ''xy'', ''rest''] False))
      accepting 1
      [\<lparr>title = ''New'', artist = ''Band'', url = ''https://osu.ppy.sh/beatmapsets/12#mania/34'',
        level = None, md5 = None\<rparr>]
      (Some (files (download_missing_maps (always (Answer NoHeader [''PK'', ''xy''] True))
        accepting 0
        [\<lparr>title = ''New'', artist = ''Band'', url = ''https://osu.ppy.sh/beatmapsets/12#mania/34'',
          level = None, md5 = None\<rparr>] None)))) ! 0 = SkippedExisting"
  using partial_file_blocks_retry [of 0
      "[\<lparr>title = ''New'', artist = ''Band'', url = ''https://osu.ppy.sh/beatmapsets/12#mania/34'',
        level = None, md5 = None\<rparr>]" "''12''" "always (Answer NoHeader [''PK'', ''xy''] True)"
      accepting 0 None NoHeader "[''PK'', ''xy'']" 0 None 0
      "[\<lparr>title = ''New'', artist = ''Band'', url = ''https://osu.ppy.sh/beatmapsets/12#mania/34'',
        level = None, md5 = None\<rparr>]"
      "always (Answer NoHeader [''PK'', ''xy'', ''rest''] False)" accepting 1]
  by (simp add: state_before_def initial_state_def makedirs_def always_def accepting_def
        is_digit_def NERINYAN_BASE_def target_filename_def sanitize_filename_def
        invalid_chars_def write_chunks_def)

section \<open>Properties of the catalog normalizer\<close>

lemma in_range_iff:
  "(int_le_float min_i lvl \<and> float_le_int lvl max_i) =
     (\<exists>q. lvl = Finite q \<and> of_int min_i \<le> q \<and> q \<le> of_int max_i)"
  by (cases lvl) simp_all

lemma level_loop_filter:
  "level_loop min_i max_i maps combined =
     combined @ filter (\<lambda>m. case level m of None \<Rightarrow> False
                          | Some lvl \<Rightarrow> int_le_float min_i lvl \<and> float_le_int lvl max_i) maps"
  by (induction maps arbitrary: combined) (simp_all split: option.splits)

lemma keep_first_subset: "set (keep_first ms) \<subseteq> set ms"
  by (induction ms rule: keep_first.induct) auto

lemma keep_first_distinct: "distinct (map md5 (keep_first ms))"
proof (induction ms rule: keep_first.induct)
  case 1
  then show ?case by simp
next
  case (2 m ms)
  have "set (keep_first (filter (\<lambda>x. md5 x \<noteq> md5 m) ms)) \<subseteq> {x. md5 x \<noteq> md5 m}"
    using keep_first_subset [of "filter (\<lambda>x. md5 x \<noteq> md5 m) ms"] by auto
  then have "md5 m \<notin> md5 ` set (keep_first (filter (\<lambda>x. md5 x \<noteq> md5 m) ms))"
    by auto
  with 2 show ?case by simp
qed

lemma keep_first_subseq: "subseq (keep_first ms) ms"
proof (induction ms rule: keep_first.induct)
  case 1
  then show ?case by simp
next
  case (2 m ms)
  have "subseq (filter (\<lambda>x. md5 x \<noteq> md5 m) ms) ms"
    by simp
  with 2 have "subseq (keep_first (filter (\<lambda>x. md5 x \<noteq> md5 m) ms)) ms"
    using subseq_order.order_trans by blast
  then show ?case by simp
qed

lemma dedup_loop_keep_first:
  "dedup_loop ms seen unique =
     unique @ keep_first (filter (\<lambda>m. case md5 m of None \<Rightarrow> False
                                     | Some md \<Rightarrow> md \<noteq> [] \<and> md \<notin> seen) ms)"
proof (induction ms arbitrary: seen unique)
  case Nil
  then show ?case by simp
next
  case (Cons m ms)
  show ?case
  proof (cases "md5 m")
    case None
    then show ?thesis by (simp add: Cons.IH)
  next
    case (Some md)
    show ?thesis
    proof (cases "md = [] \<or> md \<in> seen")
      case True
      with Some show ?thesis by (auto simp: Cons.IH)
    next
      case False
      have "filter (\<lambda>x. md5 x \<noteq> md5 m)
              (filter (\<lambda>m. case md5 m of None \<Rightarrow> False | Some md \<Rightarrow> md \<noteq> [] \<and> md \<notin> seen) ms) =
            filter (\<lambda>m. case md5 m of None \<Rightarrow> False
                         | Some md' \<Rightarrow> md' \<noteq> [] \<and> md' \<notin> insert md seen) ms"
        using Some by (auto split: option.splits intro!: filter_cong)
      with Some False show ?thesis
        by (simp add: Cons.IH)
    qed
  qed
qed

lemma unique_maps_keep_first: "unique_maps ms = keep_first (filter truthy_md5 ms)"
proof -
  have "(\<lambda>m. case md5 m of None \<Rightarrow> False | Some md \<Rightarrow> md \<noteq> [] \<and> md \<notin> {}) = truthy_md5"
    by (auto simp: truthy_md5_def fun_eq_iff split: option.splits)
  then show ?thesis
    by (simp add: unique_maps_def dedup_loop_keep_first)
qed

lemma dedup_loop_subset: "set (dedup_loop ms seen unique) \<subseteq> set unique \<union> set ms"
proof (induction ms arbitrary: seen unique)
  case Nil
  then show ?case by simp
next
  case (Cons m ms)
  have "set (dedup_loop ms seen unique) \<subseteq> set unique \<union> set ms"
    by (rule Cons.IH)
  moreover have "set (dedup_loop ms (insert md seen) (unique @ [m])) \<subseteq>
      set (unique @ [m]) \<union> set ms" for md
    by (rule Cons.IH)
  ultimately show ?case
    by (auto split: option.splits)
qed

lemma unique_maps_subset: "set (unique_maps ms) \<subseteq> set ms"
  using dedup_loop_subset [of ms "{}" "[]"] by (simp add: unique_maps_def)

lemma missing_maps_filter:
  "missing_maps unique existing = filter (\<lambda>m. md5 m \<notin> existing) unique"
  by (induction unique) simp_all

text \<open>
  With several tables selected, every item of the combined list was there before or
  comes from the catalog of a selected table and has a level within that table's range.
\<close>

lemma table_loop_in_range:
  assumes "table_loop fetch level_ranges_int tables combined fetched = (Inr result, fetched')"
      and "m \<in> set result"
  shows "m \<in> set combined \<or>
         (\<exists>table \<in> set tables. \<exists>json_url maps min_i max_i q.
            map_of JSON_URLS table = Some json_url \<and> fetch json_url = Some maps \<and>
            m \<in> set maps \<and>
            (case level_ranges_int table of None \<Rightarrow> (0, 20) | Some bounds \<Rightarrow> bounds) = (min_i, max_i) \<and>
            level m = Some (Finite q) \<and> of_int min_i \<le> q \<and> q \<le> of_int max_i)"
  using assms
proof (induction tables arbitrary: combined fetched)
  case Nil
  then show ?case by simp
next
  case (Cons table tables)
  show ?case
  proof (cases "map_of JSON_URLS table")
    case None
    with Cons.prems have "table_loop fetch level_ranges_int tables combined fetched = (Inr result, fetched')"
      by simp
    from Cons.IH [OF this Cons.prems(2)] show ?thesis by auto
  next
    case (Some json_url)
    show ?thesis
    proof (cases "fetch json_url")
      case None
      with Some Cons.prems show ?thesis by simp
    next
      case maps: (Some maps)
      obtain min_i max_i where bounds:
        "(case level_ranges_int table of None \<Rightarrow> (0, 20) | Some bounds \<Rightarrow> bounds) = (min_i, max_i)"
        by (cases "case level_ranges_int table of None \<Rightarrow> (0::int, 20::int) | Some bounds \<Rightarrow> bounds") auto
      with Some maps Cons.prems have "table_loop fetch level_ranges_int tables
          (level_loop min_i max_i maps combined) (fetched @ [json_url]) = (Inr result, fetched')"
        by simp
      from Cons.IH [OF this Cons.prems(2)]
      consider "m \<in> set (level_loop min_i max_i maps combined)"
        | "\<exists>table \<in> set tables. \<exists>json_url maps min_i max_i q.
            map_of JSON_URLS table = Some json_url \<and> fetch json_url = Some maps \<and>
            m \<in> set maps \<and>
            (case level_ranges_int table of None \<Rightarrow> (0, 20) | Some bounds \<Rightarrow> bounds) = (min_i, max_i) \<and>
            level m = Some (Finite q) \<and> of_int min_i \<le> q \<and> q \<le> of_int max_i"
        by blast
      then show ?thesis
      proof cases
        case 1
        then have "m \<in> set combined \<or> (m \<in> set maps \<and>
            (\<exists>q. level m = Some (Finite q) \<and> of_int min_i \<le> q \<and> q \<le> of_int max_i))"
          by (cases "level m") (auto simp: level_loop_filter in_range_iff)
        with Some maps bounds show ?thesis
          by auto
      next
        case 2
        then show ?thesis by auto
      qed
    qed
  qed
qed

section \<open>The catalog normalizer and the missing-set resolver: claims\<close>

text \<open>
  Claim C5. For every raw catalog and every range \<open>(min_i, max_i)\<close>: every item that
  the level loop keeps, and so every item left after deduplication, has a level that
  \<^verbatim>\<open>float\<close> reads as a finite number \<open>q\<close> with \<open>min_i \<le> q \<le> max_i\<close>; an item whose level is
  absent or unreadable is never kept, and no error arises (the loop is a total function);
  every item of the catalog with a level in the range is kept.
\<close>

theorem level_filter_in_range:
  "(\<forall>m \<in> set (level_loop min_i max_i raw []).
      \<exists>q. level m = Some (Finite q) \<and> of_int min_i \<le> q \<and> q \<le> of_int max_i) \<and>
   (\<forall>m \<in> set (unique_maps (level_loop min_i max_i raw [])).
      \<exists>q. level m = Some (Finite q) \<and> of_int min_i \<le> q \<and> q \<le> of_int max_i) \<and>
   (\<forall>m \<in> set raw. level m = None \<longrightarrow> m \<notin> set (level_loop min_i max_i raw [])) \<and>
   (\<forall>m \<in> set raw. (\<exists>q. level m = Some (Finite q) \<and> of_int min_i \<le> q \<and> q \<le> of_int max_i) \<longrightarrow>
      m \<in> set (level_loop min_i max_i raw []))"
proof -
  have member: "m \<in> set (level_loop min_i max_i raw []) \<longleftrightarrow>
      m \<in> set raw \<and> (\<exists>q. level m = Some (Finite q) \<and> of_int min_i \<le> q \<and> q \<le> of_int max_i)" for m
    by (cases "level m") (auto simp: level_loop_filter in_range_iff)
  moreover have "set (unique_maps (level_loop min_i max_i raw [])) \<subseteq>
      set (level_loop min_i max_i raw [])"
    by (rule unique_maps_subset)
  ultimately show ?thesis
    by (intro conjI ballI impI) auto
qed

text \<open>
  Witness for claim C5: a catalog with a level in the range, an absent level, a level
  above the range and a NaN, filtered with the range 0 to 13.
\<close>

theorem level_filter_in_range_witness:
  "\<lparr>title = ''A'', artist = ''B'', url = ''u1'', level = Some (Finite (7 / 2)), md5 = Some ''aa''\<rparr>
     \<in> set (unique_maps (level_loop 0 13
         [\<lparr>title = ''A'', artist = ''B'', url = ''u1'', level = Some (Finite (7 / 2)), md5 = Some ''aa''\<rparr>,
          \<lparr>title = ''C'', artist = ''D'', url = ''u2'', level = None, md5 = Some ''bb''\<rparr>,
          \<lparr>title = ''E'', artist = ''F'', url = ''u3'', level = Some (Finite 14), md5 = Some ''cc''\<rparr>,
          \<lparr>title = ''G'', artist = ''H'', url = ''u4'', level = Some NaN, md5 = Some ''dd''\<rparr>] [])) \<and>
   \<lparr>title = ''C'', artist = ''D'', url = ''u2'', level = None, md5 = Some ''bb''\<rparr>
     \<notin> set (level_loop 0 13
         [\<lparr>title = ''A'', artist = ''B'', url = ''u1'', level = Some (Finite (7 / 2)), md5 = Some ''aa''\<rparr>,
          \<lparr>title = ''C'', artist = ''D'', url = ''u2'', level = None, md5 = Some ''bb''\<rparr>,
          \<lparr>title = ''E'', artist = ''F'', url = ''u3'', level = Some (Finite 14), md5 = Some ''cc''\<rparr>,
          \<lparr>title = ''G'', artist = ''H'', url = ''u4'', level = Some NaN, md5 = Some ''dd''\<rparr>] [])"
  using level_filter_in_range [of 0 13
         "[\<lparr>title = ''A'', artist = ''B'', url = ''u1'', level = Some (Finite (7 / 2)), md5 = Some ''aa''\<rparr>,
          \<lparr>title = ''C'', artist = ''D'', url = ''u2'', level = None, md5 = Some ''bb''\<rparr>,
          \<lparr>title = ''E'', artist = ''F'', url = ''u3'', level = Some (Finite 14), md5 = Some ''cc''\<rparr>,
          \<lparr>title = ''G'', artist = ''H'', url = ''u4'', level = Some NaN, md5 = Some ''dd''\<rparr>]"]
  by (simp add: unique_maps_def)

text \<open>
  Claim C6, amended to what the code does. The items whose hash is absent or empty are dropped;
  among the others the first occurrence of each hash is kept, in input order, and later
  items with that hash are dropped. No two items of the output share a hash.
\<close>

theorem dedup_first_occurrence:
  "unique_maps combined = keep_first (filter truthy_md5 combined) \<and>
   distinct (map md5 (unique_maps combined)) \<and>
   subseq (unique_maps combined) combined"
proof -
  have "subseq (keep_first (filter truthy_md5 combined)) (filter truthy_md5 combined)"
    by (rule keep_first_subseq)
  moreover have "subseq (filter truthy_md5 combined) combined"
    by simp
  ultimately have "subseq (keep_first (filter truthy_md5 combined)) combined"
    using subseq_order.order_trans by blast
  then show ?thesis
    by (simp add: unique_maps_keep_first keep_first_distinct)
qed

text \<open>
  Witness for claim C6: of two items with the hash \<^verbatim>\<open>aa\<close> the first is kept.
\<close>

theorem dedup_first_occurrence_witness:
  "unique_maps
     [\<lparr>title = ''A'', artist = ''B'', url = ''u1'', level = None, md5 = Some ''aa''\<rparr>,
      \<lparr>title = ''C'', artist = ''D'', url = ''u2'', level = None, md5 = Some ''aa''\<rparr>,
      \<lparr>title = ''E'', artist = ''F'', url = ''u3'', level = None, md5 = Some ''bb''\<rparr>] =
     [\<lparr>title = ''A'', artist = ''B'', url = ''u1'', level = None, md5 = Some ''aa''\<rparr>,
      \<lparr>title = ''E'', artist = ''F'', url = ''u3'', level = None, md5 = Some ''bb''\<rparr>]"
  using dedup_first_occurrence [of
     "[\<lparr>title = ''A'', artist = ''B'', url = ''u1'', level = None, md5 = Some ''aa''\<rparr>,
      \<lparr>title = ''C'', artist = ''D'', url = ''u2'', level = None, md5 = Some ''aa''\<rparr>,
      \<lparr>title = ''E'', artist = ''F'', url = ''u3'', level = None, md5 = Some ''bb''\<rparr>]"]
  by (simp add: truthy_md5_def)

text \<open>
  Counterexample to claim C6 as stated, for the empty hash: the only item of the input is the first
  occurrence of its hash, and \<^verbatim>\<open>if not md\<close> drops it.
\<close>

theorem dedup_empty_hash_counterexample:
  "keep_first
     [\<lparr>title = ''A'', artist = ''B'', url = ''u1'', level = None, md5 = Some ''''\<rparr>] =
     [\<lparr>title = ''A'', artist = ''B'', url = ''u1'', level = None, md5 = Some ''''\<rparr>] \<and>
   unique_maps
     [\<lparr>title = ''A'', artist = ''B'', url = ''u1'', level = None, md5 = Some ''''\<rparr>] = []"
  by (simp add: unique_maps_def)

text \<open>
  Claim C4. For every list of catalog items and every inventory, the worklist is the
  list of the items whose hash is not in the inventory, in the order of the input: it is
  a subsequence of the input and holds exactly those items.
\<close>

theorem missing_maps_exact:
  "missing_maps unique existing = filter (\<lambda>m. md5 m \<notin> existing) unique \<and>
   subseq (missing_maps unique existing) unique \<and>
   set (missing_maps unique existing) = {m \<in> set unique. md5 m \<notin> existing}"
  by (simp add: missing_maps_filter)

text \<open>
  Witness for claim C4: an inventory that holds the hash of the second of three items.
\<close>

theorem missing_maps_exact_witness:
  "missing_maps
     [\<lparr>title = ''A'', artist = ''B'', url = ''u1'', level = None, md5 = Some ''aa''\<rparr>,
      \<lparr>title = ''E'', artist = ''F'', url = ''u3'', level = None, md5 = Some ''bb''\<rparr>,
      \<lparr>title = ''G'', artist = ''H'', url = ''u4'', level = None, md5 = Some ''cc''\<rparr>]
     {Some ''bb''} =
     [\<lparr>title = ''A'', artist = ''B'', url = ''u1'', level = None, md5 = Some ''aa''\<rparr>,
      \<lparr>title = ''G'', artist = ''H'', url = ''u4'', level = None, md5 = Some ''cc''\<rparr>]"
  using missing_maps_exact [of
     "[\<lparr>title = ''A'', artist = ''B'', url = ''u1'', level = None, md5 = Some ''aa''\<rparr>,
      \<lparr>title = ''E'', artist = ''F'', url = ''u3'', level = None, md5 = Some ''bb''\<rparr>,
      \<lparr>title = ''G'', artist = ''H'', url = ''u4'', level = None, md5 = Some ''cc''\<rparr>]"
     "{Some ''bb''}"]
  by simp

section \<open>Properties of the archive extractor\<close>









text \<open>
  The definitions that evaluate the extractor on a concrete directory.
\<close>

lemmas extractor_eval =
  extract_osz_files_def extract_one_def remove_one_def is_osz_def endswith_def lower_def
  lower_char_def splitext_root_def unzip_one_good_def listing_def unzip_into_def folder_of_def
  extracted_folder_def

section \<open>The archive extractor: claims\<close>



section \<open>The pipeline: claims\<close>

lemma inventory_empty_iff:
  "snd (get_existing_md5 db) = {} \<longleftrightarrow> db = None \<or> db = Some []"
  by (cases db) (simp_all add: get_existing_md5_def)

text \<open>
  Claim C9. When the set that \<^verbatim>\<open>get_existing_md5\<close> returns is empty, which is the case
  when the database file is missing and when the table holds no row, the task stops
  before any catalog is requested: no catalog request, no download request, no progress
  call, and the download directory is left as it was. The two cases differ only in the
  error dialog that the missing file shows.
\<close>

theorem empty_inventory_aborts:
  assumes "snd (get_existing_md5 (songdata_db w)) = {}"
  shows "(songdata_db w = None \<or> songdata_db w = Some []) \<and>
         ending (task w selected_tables level_ranges_int auto_extract) = NoInventory \<and>
         catalog_requests (task w selected_tables level_ranges_int auto_extract) = [] \<and>
         download_requests (task w selected_tables level_ranges_int auto_extract) = [] \<and>
         progress_calls (task w selected_tables level_ranges_int auto_extract) = [] \<and>
         final_dir (task w selected_tables level_ranges_int auto_extract) = output_path w"
proof -
  obtain shown where "get_existing_md5 (songdata_db w) = (shown, {})"
    using assms by (cases "get_existing_md5 (songdata_db w)") auto
  then have "task w selected_tables level_ranges_int auto_extract = stopped w NoInventory shown []"
    by (simp add: task_def)
  moreover have "songdata_db w = None \<or> songdata_db w = Some []"
    using assms by (simp add: inventory_empty_iff)
  ultimately show ?thesis
    by (simp add: stopped_def)
qed

text \<open>
  Witness for claim C9: the example world with a missing database and with an empty
  one.
\<close>

theorem empty_inventory_aborts_witness:
  "ending (task (example_world None) [''7K + 8K'', ''4K''] Map.empty True) = NoInventory \<and>
   catalog_requests (task (example_world None) [''7K + 8K'', ''4K''] Map.empty True) = [] \<and>
   download_requests (task (example_world None) [''7K + 8K'', ''4K''] Map.empty True) = [] \<and>
   ending (task (example_world (Some [])) [''7K + 8K'', ''4K''] Map.empty True) = NoInventory \<and>
   catalog_requests (task (example_world (Some [])) [''7K + 8K'', ''4K''] Map.empty True) = [] \<and>
   download_requests (task (example_world (Some [])) [''7K + 8K'', ''4K''] Map.empty True) = []"
  using empty_inventory_aborts [of "example_world None" "[''7K + 8K'', ''4K'']" Map.empty True]
    empty_inventory_aborts [of "example_world (Some [])" "[''7K + 8K'', ''4K'']" Map.empty True]
  by (simp add: example_world_def get_existing_md5_def)

text \<open>
  For contrast, the same world with one hash in the database: the catalog is
  requested, the missing map is downloaded, extracted and its archive removed.
\<close>

lemma nonempty_inventory_downloads:
  "ending (task (example_world (Some [Some ''zz''])) [''7K + 8K''] Map.empty True) = Completed \<and>
   catalog_requests (task (example_world (Some [Some ''zz''])) [''7K + 8K''] Map.empty True) =
     [''https://air-afother.github.io/osu-table/osu_mania_7k_8k_final.json''] \<and>
   download_requests (task (example_world (Some [Some ''zz''])) [''7K + 8K''] Map.empty True) =
     [''https://api.nerinyan.moe/d/12''] \<and>
   progress_calls (task (example_world (Some [Some ''zz''])) [''7K + 8K''] Map.empty True) =
     [(1, 1, 0)]"
  by (simp add: task_def example_world_def get_existing_md5_def JSON_URLS_def unique_maps_def
        engine_eval extractor_eval)

lemma nonempty_inventory_extracts:
  "map_option (\<lambda>final. (final ''New - Band [12].osz'',
       case final ''New - Band [12]'' of Some (Folder folder) \<Rightarrow> folder ''map.osu'' | _ \<Rightarrow> None))
     (final_dir (task (example_world (Some [Some ''zz''])) [''7K + 8K''] Map.empty True)) =
     Some (None, Some ''notes'')"
  by (simp add: task_def example_world_def get_existing_md5_def JSON_URLS_def unique_maps_def
        engine_eval extractor_eval)


end
